theory Spec2Isabelle
  imports Main "HOL-Library.Signed_Division"
begin

section \<open>Data model\<close>

text \<open>
  A tile is a Go \<^verbatim>\<open>rune\<close> (\<^verbatim>\<open>type Tile rune\<close>): an integer code point. The four named
  tiles are the code points of \<^verbatim>\<open>'.'\<close>, \<^verbatim>\<open>'#'\<close>, \<^verbatim>\<open>'>'\<close> and \<^verbatim>\<open>'<'\<close>. A Go string is
  represented by the sequence of code points that \<^verbatim>\<open>[]rune(s)\<close> delivers; the newline
  is code point 10, the blank 32 and the player's mark \<^verbatim>\<open>'@'\<close> 64. Go's \<^verbatim>\<open>int\<close> is
  modelled by \<^typ>\<open>int\<close>; the only place where the 64-bit range shows is the
  constant \<^verbatim>\<open>math.MaxInt\<close>.
\<close>

type_synonym Tile = int

definition TILE_EMPTY :: Tile where "TILE_EMPTY = 46"
definition TILE_WALL :: Tile where "TILE_WALL = 35"
definition TILE_START :: Tile where "TILE_START = 62"
definition TILE_END :: Tile where "TILE_END = 60"

record Coords =
  X :: int
  Y :: int

record Maze =
  Board :: "Tile list list"
  Start :: Coords
  End :: Coords
  PathLen :: int
  Width :: int
  Height :: int

text \<open>
  Failures. The first six are the error values the code returns (it builds them with
  \<^verbatim>\<open>errors.New\<close> and \<^verbatim>\<open>fmt.Errorf\<close>; they are named here after the kinds of the
  specification). \<open>Panic\<close> is a run-time panic of the Go program, which no caller of the
  repository recovers from.
\<close>

datatype panic = IndexOutOfRange | MakesliceOutOfRange | IntnInvalidArgument

datatype error =
    InconsistentRowWidth int int
  | MultipleStartPoints
  | MultipleEndPoints
  | InvalidTile Tile
  | InvalidBoard
  | InvalidSource
  | Panic panic

section \<open>Text format: \<^verbatim>\<open>LoadMazeFromString\<close> and \<^verbatim>\<open>DisplayText\<close>\<close>

text \<open>\<^verbatim>\<open>strings.Split(s, "\n")\<close>: the pieces of \<open>s\<close> between newlines; one piece more than
  there are newlines, so the empty string gives one empty piece.\<close>

fun Split :: "int list \<Rightarrow> int list list" where
  "Split [] = [[]]"
| "Split (c # cs) =
     (if c = 10 then [] # Split cs
      else (case Split cs of l # ls \<Rightarrow> (c # l) # ls | [] \<Rightarrow> [[c]]))"

text \<open>The variables \<^verbatim>\<open>startX, startY, endX, endY, starts, ends\<close> of the loader.\<close>

record Scan =
  startX :: int
  startY :: int
  endX :: int
  endY :: int
  starts :: int
  ends :: int

definition keep :: "Tile \<Rightarrow> error + (Tile list \<times> Scan) \<Rightarrow> error + (Tile list \<times> Scan)" where
  "keep t r = (case r of Inl e \<Rightarrow> Inl e | Inr (row, st) \<Rightarrow> Inr (t # row, st))"

text \<open>The inner loop \<^verbatim>\<open>for j, tile := range row\<close> of line \<open>i\<close>, from column \<open>j\<close> on. It
  returns the row as the loop leaves it (a blank overwritten by \<^verbatim>\<open>TILE_EMPTY\<close>).\<close>

fun scan_row :: "int \<Rightarrow> int \<Rightarrow> Tile list \<Rightarrow> Scan \<Rightarrow> error + (Tile list \<times> Scan)" where
  "scan_row i j [] st = Inr ([], st)"
| "scan_row i j (tile # rest) st =
     (if tile = TILE_START then
        (if starts st > 0 then Inl MultipleStartPoints
         else keep tile (scan_row i (j + 1) rest
                (st\<lparr>startX := j, startY := i, starts := starts st + 1\<rparr>)))
      else if tile = TILE_END then
        (if ends st > 0 then Inl MultipleEndPoints
         else keep tile (scan_row i (j + 1) rest
                (st\<lparr>endX := j, endY := i, ends := ends st + 1\<rparr>)))
      else if tile = 32 then keep TILE_EMPTY (scan_row i (j + 1) rest st)
      else if tile \<noteq> TILE_EMPTY \<and> tile \<noteq> TILE_WALL then Inl (InvalidTile tile)
      else keep tile (scan_row i (j + 1) rest st))"

text \<open>The outer loop \<^verbatim>\<open>for i, l := range lines\<close>, from line \<open>i\<close> on, with the board
  built so far and the variable \<^verbatim>\<open>width\<close>.\<close>

fun scan_lines ::
  "int \<Rightarrow> Tile list list \<Rightarrow> Tile list list \<Rightarrow> int \<Rightarrow> Scan \<Rightarrow> error + (Tile list list \<times> int \<times> Scan)"
where
  "scan_lines i [] board width st = Inr (board, width, st)"
| "scan_lines i (l # ls) board width st =
     (if length l = 0 then scan_lines (i + 1) ls board width st
      else
        (case (if width = - 1 then Inr (int (length l))
               else if width \<noteq> int (length l) then
                 Inl (InconsistentRowWidth width (int (length l)))
               else Inr width) of
           Inl e \<Rightarrow> Inl e
         | Inr width' \<Rightarrow>
             (case scan_row i 0 l st of
                Inl e \<Rightarrow> Inl e
              | Inr (row, st') \<Rightarrow> scan_lines (i + 1) ls (board @ [row]) width' st')))"

definition LoadMazeFromString :: "int list \<Rightarrow> error + Maze" where
  "LoadMazeFromString s =
     (case scan_lines 0 (Split s) [] (- 1)
             \<lparr>startX = 0, startY = 0, endX = 0, endY = 0, starts = 0, ends = 0\<rparr> of
        Inl e \<Rightarrow> Inl e
      | Inr (board, width, st) \<Rightarrow>
          Inr \<lparr>Board = board,
               Start = \<lparr>X = startX st, Y = startY st\<rparr>,
               End = \<lparr>X = endX st, Y = endY st\<rparr>,
               PathLen = - 1,
               Width = width,
               Height = int (length board)\<rparr>)"

text \<open>\<^verbatim>\<open>strings.Builder.WriteRune\<close>, seen on code points: a rune that is no valid code
  point is written as U+FFFD.\<close>

definition WriteRune :: "int \<Rightarrow> int" where
  "WriteRune r =
     (if 0 \<le> r \<and> r \<le> 1114111 \<and> \<not> (55296 \<le> r \<and> r \<le> 57343) then r else 65533)"

fun display_row :: "int \<Rightarrow> int \<Rightarrow> int \<Rightarrow> int \<Rightarrow> Tile list \<Rightarrow> int list" where
  "display_row playerX playerY i j [] = [10]"
| "display_row playerX playerY i j (tile # rest) =
     (if j = playerX \<and> i = playerY then 64 else WriteRune tile)
       # display_row playerX playerY i (j + 1) rest"

fun display_rows :: "int \<Rightarrow> int \<Rightarrow> int \<Rightarrow> Tile list list \<Rightarrow> int list" where
  "display_rows playerX playerY i [] = []"
| "display_rows playerX playerY i (row # rows) =
     display_row playerX playerY i 0 row @ display_rows playerX playerY (i + 1) rows"

text \<open>\<^verbatim>\<open>DisplayText\<close> returns the text and always a nil error; the model returns the text.\<close>

definition DisplayText :: "Maze \<Rightarrow> int \<Rightarrow> int \<Rightarrow> int list" where
  "DisplayText m playerX playerY = display_rows playerX playerY 0 (Board m)"

text \<open>What the loader stores for a tile it accepts: a blank becomes \<^verbatim>\<open>TILE_EMPTY\<close>.\<close>

definition normal :: "Tile \<Rightarrow> Tile" where
  "normal t = (if t = 32 then TILE_EMPTY else t)"

section \<open>Checked slice accesses\<close>

text \<open>An index expression of Go panics when the index is out of range; the model
  makes the panic a result.\<close>

definition at :: "'a list \<Rightarrow> int \<Rightarrow> error + 'a" where
  "at xs i = (if 0 \<le> i \<and> i < int (length xs) then Inr (xs ! nat i)
              else Inl (Panic IndexOutOfRange))"

text \<open>\<^verbatim>\<open>a[i][j]\<close> as a value.\<close>

definition at2 :: "'a list list \<Rightarrow> int \<Rightarrow> int \<Rightarrow> error + 'a" where
  "at2 a i j = (case at a i of Inl e \<Rightarrow> Inl e | Inr row \<Rightarrow> at row j)"

text \<open>\<^verbatim>\<open>a[i][j] = v\<close>.\<close>

definition store :: "'a list list \<Rightarrow> int \<Rightarrow> int \<Rightarrow> 'a \<Rightarrow> error + 'a list list" where
  "store a i j v =
     (case at2 a i j of
        Inl e \<Rightarrow> Inl e
      | Inr _ \<Rightarrow> Inr (a[nat i := (a ! nat i)[nat j := v]]))"

section \<open>The priority queue of \<^verbatim>\<open>CreateSpt\<close>\<close>

definition MaxInt :: int where
  "MaxInt = 9223372036854775807"

record item =
  pos :: Coords
  weight :: int
  index :: int

type_synonym pointQueue = "item list"

definition Less :: "pointQueue \<Rightarrow> nat \<Rightarrow> nat \<Rightarrow> bool" where
  "Less q i j = (weight (q ! i) < weight (q ! j))"

definition Swap :: "pointQueue \<Rightarrow> nat \<Rightarrow> nat \<Rightarrow> pointQueue" where
  "Swap q i j =
     (let q1 = q[i := q ! j, j := q ! i];
          q2 = q1[i := (q1 ! i)\<lparr>index := int i\<rparr>]
      in q2[j := (q2 ! j)\<lparr>index := int j\<rparr>])"

definition Push :: "pointQueue \<Rightarrow> item \<Rightarrow> pointQueue" where
  "Push q x = q @ [x\<lparr>index := int (length q)\<rparr>]"

text \<open>The method \<^verbatim>\<open>Pop\<close> of \<^verbatim>\<open>pointQueue\<close>: it takes the last element of the slice.\<close>

definition Pop :: "pointQueue \<Rightarrow> error + (item \<times> pointQueue)" where
  "Pop q = (if length q = 0 then Inl (Panic IndexOutOfRange)
            else Inr ((last q)\<lparr>index := - 1\<rparr>, butlast q))"

text \<open>
  \<^verbatim>\<open>heap.Push\<close> of Go's \<^verbatim>\<open>container/heap\<close> (library code, given here as the library
  defines it): it calls the method \<^verbatim>\<open>Push\<close> and then \<^verbatim>\<open>up(h, h.Len()-1)\<close>, which swaps the
  new element with its parent \<^verbatim>\<open>(j-1)/2\<close> as long as it is \<^verbatim>\<open>Less\<close> than the parent. For
  \<open>j = 0\<close> Go's truncating division gives the parent \<open>0 = j\<close>, as the subtraction on
  \<^typ>\<open>nat\<close> does here. \<^verbatim>\<open>heap.Init\<close> on the empty queue does nothing.
\<close>

function up :: "pointQueue \<Rightarrow> nat \<Rightarrow> pointQueue" where
  "up h j = (let i = (j - 1) div 2 in
             if i = j \<or> \<not> Less h j i then h else up (Swap h i j) i)"
  by pat_completeness auto
termination
  by (relation "measure (\<lambda>(h, j). j)") auto

definition heap_Push :: "pointQueue \<Rightarrow> item \<Rightarrow> pointQueue" where
  "heap_Push h x = (let h' = Push h x in up h' (length h' - 1))"

section \<open>\<^verbatim>\<open>CreateSpt\<close>\<close>

text \<open>Lines 436 to 450: the four tiles around the cell are read one after the other,
  each read checked, and the cells behind an empty tile are collected.\<close>

definition adjacent :: "Tile list list \<Rightarrow> Coords \<Rightarrow> error + Coords list" where
  "adjacent board p =
     (case at2 board (Y p * 2) (X p * 2 + 1) of Inl e \<Rightarrow> Inl e | Inr t1 \<Rightarrow>
     (case at2 board (Y p * 2 + 2) (X p * 2 + 1) of Inl e \<Rightarrow> Inl e | Inr t2 \<Rightarrow>
     (case at2 board (Y p * 2 + 1) (X p * 2 + 2) of Inl e \<Rightarrow> Inl e | Inr t3 \<Rightarrow>
     (case at2 board (Y p * 2 + 1) (X p * 2) of Inl e \<Rightarrow> Inl e | Inr t4 \<Rightarrow>
        Inr ((if t1 = TILE_EMPTY then [\<lparr>X = X p, Y = Y p - 1\<rparr>] else [])
           @ (if t2 = TILE_EMPTY then [\<lparr>X = X p, Y = Y p + 1\<rparr>] else [])
           @ (if t3 = TILE_EMPTY then [\<lparr>X = X p + 1, Y = Y p\<rparr>] else [])
           @ (if t4 = TILE_EMPTY then [\<lparr>X = X p - 1, Y = Y p\<rparr>] else []))))))"

text \<open>Lines 452 to 458: the loop over \<^verbatim>\<open>adj\<close>.\<close>

fun relax ::
  "int list list \<Rightarrow> pointQueue \<Rightarrow> Coords \<Rightarrow> Coords list \<Rightarrow> error + (int list list \<times> pointQueue)"
where
  "relax distances pq cur [] = Inr (distances, pq)"
| "relax distances pq cur (point # rest) =
     (case at2 distances (Y cur) (X cur) of Inl e \<Rightarrow> Inl e | Inr d \<Rightarrow>
     (let newDist = d + 1 in
     (case at2 distances (Y point) (X point) of Inl e \<Rightarrow> Inl e | Inr old \<Rightarrow>
        if newDist < old then
          (case store distances (Y point) (X point) newDist of
             Inl e \<Rightarrow> Inl e
           | Inr distances' \<Rightarrow>
               relax distances'
                 (heap_Push pq \<lparr>pos = point, weight = newDist, index = 0\<rparr>) cur rest)
        else relax distances pq cur rest)))"

text \<open>One turn of the main loop (lines 431 to 459), for a queue that is not empty.\<close>

definition spt_step ::
  "Tile list list \<Rightarrow> int list list \<Rightarrow> pointQueue \<Rightarrow> error + (int list list \<times> pointQueue)"
where
  "spt_step board distances pq =
     (case Pop pq of Inl e \<Rightarrow> Inl e | Inr (current, pq') \<Rightarrow>
     (case adjacent board (pos current) of Inl e \<Rightarrow> Inl e | Inr adj \<Rightarrow>
        relax distances pq' (pos current) adj))"

subsection \<open>Termination of the main loop\<close>

text \<open>Termination of the main loop: every push lowers one entry of the table, and no
  entry ever falls below the least one.\<close>

definition total :: "(int \<Rightarrow> nat) \<Rightarrow> int list list \<Rightarrow> nat" where
  "total f ds = sum_list (map (\<lambda>r. sum_list (map f r)) ds)"

definition slack :: "int list list \<Rightarrow> nat" where
  "slack ds = total (\<lambda>e. nat (e - Min (set (concat ds)))) ds"

lemma sum_list_map_update:
  fixes f :: "'a \<Rightarrow> nat"
  shows "i < length xs \<Longrightarrow> sum_list (map f (xs[i := v])) + f (xs ! i) = sum_list (map f xs) + f v"
  by (induction xs arbitrary: i) (auto split: nat.splits)

lemma total_update:
  assumes "i < length ds" and "j < length (ds ! i)"
  shows "total f (ds[i := (ds ! i)[j := v]]) + f (ds ! i ! j) = total f ds + f v"
proof -
  let ?g = "\<lambda>r. sum_list (map f r)"
  have "sum_list (map ?g (ds[i := (ds ! i)[j := v]])) + ?g (ds ! i)
        = sum_list (map ?g ds) + ?g ((ds ! i)[j := v])"
    using assms(1) by (rule sum_list_map_update)
  moreover have "?g ((ds ! i)[j := v]) + f (ds ! i ! j) = ?g (ds ! i) + f v"
    using assms(2) by (rule sum_list_map_update)
  ultimately show ?thesis unfolding total_def by linarith
qed

lemma total_mono:
  assumes "\<And>e. f e \<le> g e"
  shows "total f ds \<le> total g ds"
  unfolding total_def by (intro sum_list_mono assms)

lemma at_Inr: "at xs i = Inr v \<longleftrightarrow> 0 \<le> i \<and> i < int (length xs) \<and> xs ! nat i = v"
  by (auto simp: at_def)

lemma at2_Inr:
  "at2 a i j = Inr v \<longleftrightarrow>
     0 \<le> i \<and> i < int (length a) \<and> 0 \<le> j \<and> j < int (length (a ! nat i)) \<and> a ! nat i ! nat j = v"
  by (cases "0 \<le> i \<and> i < int (length a)") (auto simp add: at2_def at_def)

lemma at2_Inl:
  "at2 a i j = Inl e \<longleftrightarrow>
     e = Panic IndexOutOfRange \<and>
     \<not> (0 \<le> i \<and> i < int (length a) \<and> 0 \<le> j \<and> j < int (length (a ! nat i)))"
  by (cases "0 \<le> i \<and> i < int (length a)") (auto simp add: at2_def at_def)

lemma store_Inr:
  "store a i j v = Inr a' \<longleftrightarrow>
     0 \<le> i \<and> i < int (length a) \<and> 0 \<le> j \<and> j < int (length (a ! nat i))
     \<and> a' = a[nat i := (a ! nat i)[nat j := v]]"
proof (cases "at2 a i j")
  case (Inl e)
  then show ?thesis unfolding store_def using at2_Inl[of a i j e] by auto
next
  case (Inr w)
  then show ?thesis unfolding store_def using at2_Inr[of a i j w] by auto
qed

lemma entry_in_concat: "i < length ds \<Longrightarrow> j < length (ds ! i) \<Longrightarrow> ds ! i ! j \<in> set (concat ds)"
proof -
  assume "i < length ds" "j < length (ds ! i)"
  then have "ds ! i \<in> set ds" "ds ! i ! j \<in> set (ds ! i)" by simp_all
  then show ?thesis by auto
qed

lemma concat_update_subset:
  "set (concat (ds[i := (ds ! i)[j := v]])) \<subseteq> insert v (set (concat ds))"
proof (cases "i < length ds")
  case False
  then have "ds[i := (ds ! i)[j := v]] = ds" by (simp add: list_update_beyond)
  then show ?thesis by auto
next
  case True
  show ?thesis
  proof
    fix e assume "e \<in> set (concat (ds[i := (ds ! i)[j := v]]))"
    then obtain r where r: "r \<in> set (ds[i := (ds ! i)[j := v]])" and e: "e \<in> set r" by auto
    from r have "r \<in> insert ((ds ! i)[j := v]) (set ds)"
      using set_update_subset_insert[of ds i "(ds ! i)[j := v]"] by blast
    then have "r = (ds ! i)[j := v] \<or> r \<in> set ds" by simp
    then show "e \<in> insert v (set (concat ds))"
    proof
      assume "r = (ds ! i)[j := v]"
      then have "e \<in> insert v (set (ds ! i))"
        using e set_update_subset_insert[of "ds ! i" j v] by blast
      moreover have "ds ! i \<in> set ds" using True by simp
      ultimately show ?thesis by auto
    next
      assume "r \<in> set ds" then show ?thesis using e by auto
    qed
  qed
qed

lemma slack_update:
  assumes old: "at2 ds i j = Inr old" and d: "at2 ds ci cj = Inr d" and less: "d + 1 < old"
  shows "slack (ds[nat i := (ds ! nat i)[nat j := d + 1]]) < slack ds"
proof -
  define ds' where "ds' = ds[nat i := (ds ! nat i)[nat j := d + 1]]"
  define lo where "lo = Min (set (concat ds))"
  define lo' where "lo' = Min (set (concat ds'))"
  from old have i: "nat i < length ds" and j: "nat j < length (ds ! nat i)"
    and oldv: "ds ! nat i ! nat j = old" by (auto simp: at2_Inr)
  from d have "nat ci < length ds" "nat cj < length (ds ! nat ci)" "ds ! nat ci ! nat cj = d"
    by (auto simp: at2_Inr)
  then have d_in: "d \<in> set (concat ds)" using entry_in_concat by blast
  have lo_d: "lo \<le> d" unfolding lo_def by (rule Min_le[OF _ d_in]) simp
  have "ds' ! nat i ! nat j = d + 1" unfolding ds'_def using i j by simp
  moreover have "nat i < length ds'" "nat j < length (ds' ! nat i)"
    unfolding ds'_def using i j by simp_all
  ultimately have new_in: "d + 1 \<in> set (concat ds')"
    using entry_in_concat[of "nat i" ds' "nat j"] by simp
  have sub: "set (concat ds') \<subseteq> insert (d + 1) (set (concat ds))"
    unfolding ds'_def by (rule concat_update_subset)
  have "lo \<le> e" if "e \<in> set (concat ds')" for e
  proof -
    from that sub have "e = d + 1 \<or> e \<in> set (concat ds)" by blast
    then show ?thesis
    proof
      assume "e = d + 1" with lo_d show ?thesis by simp
    next
      assume "e \<in> set (concat ds)"
      then show ?thesis unfolding lo_def by (intro Min_le) simp_all
    qed
  qed
  moreover have "lo' \<in> set (concat ds')"
  proof -
    have "A \<noteq> {}" if "x \<in> A" for x :: int and A using that by blast
    from this[OF new_in] show ?thesis unfolding lo'_def by (intro Min_in) simp_all
  qed
  ultimately have lo: "lo \<le> lo'" by blast
  have le1: "total (\<lambda>e. nat (e - lo')) ds' \<le> total (\<lambda>e. nat (e - lo)) ds'"
    by (rule total_mono) (use lo in simp)
  have "total (\<lambda>e. nat (e - lo)) ds' + nat (ds ! nat i ! nat j - lo)
        = total (\<lambda>e. nat (e - lo)) ds + nat (d + 1 - lo)"
    unfolding ds'_def by (rule total_update[OF i j])
  then have eq: "total (\<lambda>e. nat (e - lo)) ds' + nat (old - lo)
        = total (\<lambda>e. nat (e - lo)) ds + nat (d + 1 - lo)"
    unfolding oldv .
  have lt: "nat (d + 1 - lo) < nat (old - lo)" using less lo_d by linarith
  have "total (\<lambda>e. nat (e - lo')) ds' < total (\<lambda>e. nat (e - lo)) ds"
    using le1 eq lt by linarith
  then show ?thesis unfolding slack_def ds'_def lo_def lo'_def .
qed

declare up.simps [simp del]

lemma length_Swap: "length (Swap q i j) = length q"
  by (simp add: Swap_def Let_def)

lemma length_up: "length (up h j) = length h"
proof (induction h j rule: up.induct)
  case (1 h j)
  show ?case
  proof (cases "(j - 1) div 2 = j \<or> \<not> Less h j ((j - 1) div 2)")
    case True then show ?thesis by (subst up.simps) (simp add: Let_def)
  next
    case False
    then have "up h j = up (Swap h ((j - 1) div 2) j) ((j - 1) div 2)"
      by (subst up.simps) (simp add: Let_def)
    then show ?thesis using 1[OF refl] False by (simp add: length_Swap)
  qed
qed

lemma length_heap_Push: "length (heap_Push h x) = Suc (length h)"
  by (simp add: heap_Push_def Push_def Let_def length_up)

lemma relax_measure:
  "relax ds pq cur adj = Inr (ds', pq') \<Longrightarrow>
   2 * slack ds' + length pq' \<le> 2 * slack ds + length pq"
proof (induction adj arbitrary: ds pq)
  case Nil then show ?case by simp
next
  case (Cons point rest)
  from Cons.prems obtain d old where d: "at2 ds (Y cur) (X cur) = Inr d"
    and old: "at2 ds (Y point) (X point) = Inr old"
    by (auto simp: Let_def split: sum.splits)
  show ?case
  proof (cases "d + 1 < old")
    case True
    let ?ds1 = "ds[nat (Y point) := (ds ! nat (Y point))[nat (X point) := d + 1]]"
    have st: "store ds (Y point) (X point) (d + 1) = Inr ?ds1"
      using old by (auto simp: store_Inr at2_Inr)
    from Cons.prems d old True st
    have "relax ?ds1 (heap_Push pq \<lparr>pos = point, weight = d + 1, index = 0\<rparr>) cur rest = Inr (ds', pq')"
      by (simp add: Let_def)
    from Cons.IH[OF this] slack_update[OF old d True] show ?thesis
      by (simp add: length_heap_Push)
  next
    case False
    with Cons.prems d old have "relax ds pq cur rest = Inr (ds', pq')" by (simp add: Let_def)
    from Cons.IH[OF this] show ?thesis .
  qed
qed

lemma spt_step_measure:
  assumes "spt_step board ds pq = Inr (ds', pq')"
  shows "2 * slack ds' + length pq' < 2 * slack ds + length pq"
proof -
  from assms obtain current pq1 adj where pop: "Pop pq = Inr (current, pq1)"
    and r: "relax ds pq1 (pos current) adj = Inr (ds', pq')"
    by (auto simp: spt_step_def split: sum.splits)
  from pop have "length pq1 < length pq" by (auto simp: Pop_def split: if_splits)
  with relax_measure[OF r] show ?thesis by simp
qed

text \<open>The main loop \<^verbatim>\<open>for pq.Len() != 0\<close>.\<close>

function spt_loop :: "Tile list list \<Rightarrow> int list list \<Rightarrow> pointQueue \<Rightarrow> error + int list list" where
  "spt_loop board distances pq =
     (if length pq = 0 then Inr distances
      else (case spt_step board distances pq of
              Inl e \<Rightarrow> Inl e
            | Inr (distances', pq') \<Rightarrow> spt_loop board distances' pq'))"
  by pat_completeness auto
termination
proof (relation "measure (\<lambda>(board, ds, pq). 2 * slack ds + length pq)")
  show "wf (measure (\<lambda>(board, ds, pq). 2 * slack ds + length pq))" by simp
next
  fix board :: "Tile list list" and distances pq r distances' pq'
  assume "spt_step board distances pq = Inr r" and "(distances', pq') = r"
  then have "spt_step board distances pq = Inr (distances', pq')" by simp
  from spt_step_measure[OF this]
  show "((board, distances', pq'), (board, distances, pq))
          \<in> measure (\<lambda>(board, ds, pq). 2 * slack ds + length pq)" by simp
qed

declare spt_loop.simps [simp del]

text \<open>
  \<^verbatim>\<open>CreateSpt\<close>. Go's \<^verbatim>\<open>%\<close> and \<^verbatim>\<open>/\<close> truncate towards zero (\<open>smod\<close>, \<open>sdiv\<close>). The
  second test of the first condition reads \<^verbatim>\<open>m.Board[0]\<close> only when the first test
  has failed, that is when the board has an odd number of rows, hence a row \<open>0\<close>.
\<close>

definition CreateSpt :: "Maze \<Rightarrow> Coords \<Rightarrow> error + int list list" where
  "CreateSpt m src =
     (if int (length (Board m)) smod 2 \<noteq> 1 \<or> int (length (Board m ! 0)) smod 2 \<noteq> 1 then
        Inl InvalidBoard
      else if X src smod 2 \<noteq> 1 \<or> Y src smod 2 \<noteq> 1 then Inl InvalidSource
      else
        (let realHeight = (int (length (Board m)) - 1) sdiv 2;
             realWidth = (int (length (Board m ! 0)) - 1) sdiv 2;
             realSrc = \<lparr>X = (X src - 1) sdiv 2, Y = (Y src - 1) sdiv 2\<rparr>;
             distances = replicate (nat realHeight) (replicate (nat realWidth) MaxInt)
         in (case store distances (Y realSrc) (X realSrc) 0 of
               Inl e \<Rightarrow> Inl e
             | Inr distances' \<Rightarrow>
                 spt_loop (Board m) distances'
                   (heap_Push [] \<lparr>pos = \<lparr>X = X realSrc, Y = Y realSrc\<rparr>, weight = 0, index = 0\<rparr>))))"

section \<open>\<^verbatim>\<open>GenerateMaze\<close>\<close>

datatype Direction = POS_Y | POS_X | NEG_Y | NEG_X

text \<open>
  The pseudo-random generators of Go's \<^verbatim>\<open>math/rand\<close> are library code. A generator is
  represented by the values its coming calls will draw, and \<^verbatim>\<open>Intn(n)\<close> delivers the
  next of them reduced below \<open>n\<close> (\<open>0\<close> once the listed draws are used up); it panics
  for \<open>n \<le> 0\<close>. Every sequence of results a real generator can deliver is the
  sequence of some such list.
\<close>

type_synonym Source = "nat list"

definition Intn :: "Source \<Rightarrow> int \<Rightarrow> error + (int \<times> Source)" where
  "Intn r n =
     (if n \<le> 0 then Inl (Panic IntnInvalidArgument)
      else (case r of [] \<Rightarrow> Inr (0, []) | v # r' \<Rightarrow> Inr (int v mod n, r')))"

text \<open>One of the four tests of lines 49 to 60: \<^verbatim>\<open>inside && board[i][j] != TILE_EMPTY\<close>,
  the tile being read only when \<open>inside\<close> holds.\<close>

definition probe ::
  "bool \<Rightarrow> Tile list list \<Rightarrow> int \<Rightarrow> int \<Rightarrow> Direction \<Rightarrow> error + Direction list"
where
  "probe inside board i j d =
     (if inside then
        (case at2 board i j of
           Inl e \<Rightarrow> Inl e
         | Inr t \<Rightarrow> Inr (if t \<noteq> TILE_EMPTY then [d] else []))
      else Inr [])"

text \<open>The list \<^verbatim>\<open>directions\<close> of lines 48 to 60 (and again of lines 71 to 82, where it is
  empty before the four tests).\<close>

definition check_directions ::
  "Tile list list \<Rightarrow> int \<Rightarrow> int \<Rightarrow> int \<Rightarrow> int \<Rightarrow> error + Direction list"
where
  "check_directions board width height x y =
     (case probe (y \<noteq> height - 1) board (1 + 2 * (y + 1)) (1 + 2 * x) POS_Y of
        Inl e \<Rightarrow> Inl e | Inr d1 \<Rightarrow>
     (case probe (y \<noteq> 0) board (1 + 2 * (y - 1)) (1 + 2 * x) NEG_Y of
        Inl e \<Rightarrow> Inl e | Inr d2 \<Rightarrow>
     (case probe (x \<noteq> width - 1) board (1 + 2 * y) (1 + 2 * (x + 1)) POS_X of
        Inl e \<Rightarrow> Inl e | Inr d3 \<Rightarrow>
     (case probe (x \<noteq> 0) board (1 + 2 * y) (1 + 2 * (x - 1)) NEG_X of
        Inl e \<Rightarrow> Inl e | Inr d4 \<Rightarrow> Inr (d1 @ d2 @ d3 @ d4)))))"

text \<open>The loop \<^verbatim>\<open>for len(directions) == 0\<close> of lines 66 to 83: it takes the last cell
  of \<^verbatim>\<open>backtrack\<close> and panics on the empty slice.\<close>

function unwind ::
  "Tile list list \<Rightarrow> int \<Rightarrow> int \<Rightarrow> Coords list \<Rightarrow> error + (int \<times> int \<times> Coords list)"
where
  "unwind board width height backtrack =
     (if length backtrack = 0 then Inl (Panic IndexOutOfRange)
      else
        (case check_directions board width height (X (last backtrack)) (Y (last backtrack)) of
           Inl e \<Rightarrow> Inl e
         | Inr directions \<Rightarrow>
             if length directions = 0 then unwind board width height (butlast backtrack)
             else Inr (X (last backtrack), Y (last backtrack), butlast backtrack)))"
  by pat_completeness auto
termination
  by (relation "measure (\<lambda>(board, width, height, backtrack). length backtrack)") auto

declare unwind.simps [simp del]

text \<open>The \<^verbatim>\<open>switch move\<close> of lines 86 to 99.\<close>

definition carve_move ::
  "Tile list list \<Rightarrow> int \<Rightarrow> int \<Rightarrow> Direction \<Rightarrow> error + (Tile list list \<times> int \<times> int)"
where
  "carve_move board x y move =
     (case move of
        POS_X \<Rightarrow> (case store board (2 * y + 1) (2 * x + 2) TILE_EMPTY of
                    Inl e \<Rightarrow> Inl e | Inr b \<Rightarrow> Inr (b, x + 1, y))
      | POS_Y \<Rightarrow> (case store board (2 * y + 2) (2 * x + 1) TILE_EMPTY of
                    Inl e \<Rightarrow> Inl e | Inr b \<Rightarrow> Inr (b, x, y + 1))
      | NEG_X \<Rightarrow> (case store board (2 * y + 1) (2 * x) TILE_EMPTY of
                    Inl e \<Rightarrow> Inl e | Inr b \<Rightarrow> Inr (b, x - 1, y))
      | NEG_Y \<Rightarrow> (case store board (2 * y) (2 * x + 1) TILE_EMPTY of
                    Inl e \<Rightarrow> Inl e | Inr b \<Rightarrow> Inr (b, x, y - 1)))"

lemma unwind_shorter:
  "unwind board width height backtrack = Inr (x, y, backtrack') \<Longrightarrow>
   length backtrack' < length backtrack"
proof (induction board width height backtrack rule: unwind.induct)
  case (1 board width height backtrack)
  from "1.prems" have ne: "length backtrack \<noteq> 0"
    by (subst (asm) unwind.simps) (simp split: if_splits)
  from "1.prems" ne obtain directions where
    d: "check_directions board width height (X (last backtrack)) (Y (last backtrack)) = Inr directions"
    by (subst (asm) unwind.simps) (simp split: sum.splits)
  show ?case
  proof (cases "length directions = 0")
    case True
    with "1.prems" ne d have "unwind board width height (butlast backtrack) = Inr (x, y, backtrack')"
      by (subst (asm) unwind.simps) simp
    from "1.IH"[OF ne d True this] show ?thesis by simp
  next
    case False
    with "1.prems" ne d have "backtrack' = butlast backtrack"
      by (subst (asm) unwind.simps) simp
    with ne show ?thesis by simp
  qed
qed

text \<open>
  The loop \<^verbatim>\<open>for toVisit > 0\<close> of lines 43 to 105, on the variables \<^verbatim>\<open>board\<close>, \<^verbatim>\<open>x\<close>,
  \<^verbatim>\<open>y\<close>, \<^verbatim>\<open>backtrack\<close>, \<^verbatim>\<open>endpoints\<close> and \<^verbatim>\<open>toVisit\<close>. The move is drawn with
  \<^verbatim>\<open>rand.Intn\<close>, the generator shared by the whole process (line 85), whose
  state is \<open>global\<close>; the generator \<^verbatim>\<open>rng\<close> made from the seed is not used here.
\<close>

function carve ::
  "int \<Rightarrow> int \<Rightarrow> Tile list list \<Rightarrow> int \<Rightarrow> int \<Rightarrow> Coords list \<Rightarrow> Coords list \<Rightarrow> int \<Rightarrow> Source
     \<Rightarrow> error + (Tile list list \<times> Coords list \<times> Source)"
where
  "carve width height board x y backtrack endpoints toVisit global =
     (if \<not> toVisit > 0 then Inr (board, endpoints, global)
      else
        (case check_directions board width height x y of
           Inl e \<Rightarrow> Inl e
         | Inr directions \<Rightarrow>
             if length directions = 0 then
               (case unwind board width height backtrack of
                  Inl e \<Rightarrow> Inl e
                | Inr (x', y', backtrack') \<Rightarrow>
                    carve width height board x' y' backtrack'
                      (endpoints @ [\<lparr>X = x, Y = y\<rparr>]) toVisit global)
             else
               (case Intn global (int (length directions)) of
                  Inl e \<Rightarrow> Inl e
                | Inr (k, global') \<Rightarrow>
                    (case carve_move board x y (directions ! nat k) of
                       Inl e \<Rightarrow> Inl e
                     | Inr (board1, x1, y1) \<Rightarrow>
                         (case store board1 (1 + 2 * y1) (1 + 2 * x1) TILE_EMPTY of
                            Inl e \<Rightarrow> Inl e
                          | Inr board2 \<Rightarrow>
                              carve width height board2 x1 y1
                                (backtrack @ [\<lparr>X = x1, Y = y1\<rparr>]) endpoints
                                (toVisit - 1) global')))))"
  by pat_completeness auto
termination
proof (relation "measures [\<lambda>(width, height, board, x, y, backtrack, endpoints, toVisit, global). nat toVisit,
                           \<lambda>(width, height, board, x, y, backtrack, endpoints, toVisit, global). length backtrack]")
qed (auto dest: unwind_shorter)

declare carve.simps [simp del]

text \<open>Lines 133 to 140: the largest entry of the table and the first place that holds
  it, rows outermost.\<close>

fun scan_line :: "int \<Rightarrow> int \<Rightarrow> int list \<Rightarrow> int \<times> Coords \<Rightarrow> int \<times> Coords" where
  "scan_line j k [] (longest, p2) = (longest, p2)"
| "scan_line j k (val # rest) (longest, p2) =
     scan_line j (k + 1) rest (if val > longest then (val, \<lparr>X = k, Y = j\<rparr>) else (longest, p2))"

fun scan_spt :: "int \<Rightarrow> int list list \<Rightarrow> int \<times> Coords \<Rightarrow> int \<times> Coords" where
  "scan_spt j [] acc = acc"
| "scan_spt j (line # rest) acc = scan_spt (j + 1) rest (scan_line j 0 line acc)"

text \<open>Lines 125 to 148: the loop over \<^verbatim>\<open>endpoints\<close>, on the variables \<^verbatim>\<open>src\<close>, \<^verbatim>\<open>dest\<close>
  and \<^verbatim>\<open>dist\<close>. \<^verbatim>\<open>tmpMaze\<close> holds the board and zero values otherwise.\<close>

fun pick ::
  "Tile list list \<Rightarrow> Coords list \<Rightarrow> Coords \<times> Coords \<times> int \<Rightarrow> error + (Coords \<times> Coords \<times> int)"
where
  "pick board [] (src, dest, dist) = Inr (src, dest, dist)"
| "pick board (p1 # rest) (src, dest, dist) =
     (case CreateSpt \<lparr>Board = board, Start = \<lparr>X = 0, Y = 0\<rparr>, End = \<lparr>X = 0, Y = 0\<rparr>,
                      PathLen = 0, Width = 0, Height = 0\<rparr>
                     \<lparr>X = X p1 * 2 + 1, Y = Y p1 * 2 + 1\<rparr> of
        Inl e \<Rightarrow> Inl e
      | Inr spt \<Rightarrow>
          (case scan_spt 0 spt (- 1, \<lparr>X = 0, Y = 0\<rparr>) of
             (longest, p2) \<Rightarrow>
               if longest > dist then pick board rest (p1, p2, longest)
               else pick board rest (src, dest, dist)))"

text \<open>Lines 23 to 29: \<^verbatim>\<open>make\<close> panics on a negative capacity or length; the rows are
  made inside the loop, so only if there is a row to make.\<close>

definition make_board :: "int \<Rightarrow> int \<Rightarrow> error + Tile list list" where
  "make_board width height =
     (if 2 * height + 1 < 0 then Inl (Panic MakesliceOutOfRange)
      else if 0 < 2 * height + 1 \<and> 2 * width + 1 < 0 then Inl (Panic MakesliceOutOfRange)
      else Inr (replicate (nat (2 * height + 1)) (replicate (nat (2 * width + 1)) TILE_WALL)))"

text \<open>
  \<^verbatim>\<open>GenerateMaze\<close>. \<open>NewSource\<close> stands for \<^verbatim>\<open>rand.New(rand.NewSource(seed))\<close> and \<open>global\<close>
  for the state of the process-wide generator when the call begins; the state in which
  the call leaves it is returned with the maze.
\<close>

definition GenerateMaze ::
  "(int \<Rightarrow> Source) \<Rightarrow> Source \<Rightarrow> int \<Rightarrow> int \<Rightarrow> int \<Rightarrow> error + (Maze \<times> Source)"
where
  "GenerateMaze NewSource global width height seed =
     (case make_board width height of Inl e \<Rightarrow> Inl e | Inr board \<Rightarrow>
     (case Intn (NewSource seed) width of Inl e \<Rightarrow> Inl e | Inr (x, rng1) \<Rightarrow>
     (case Intn rng1 height of Inl e \<Rightarrow> Inl e | Inr (y, rng2) \<Rightarrow>
     (case carve width height board x y [] [\<lparr>X = 0, Y = 0\<rparr>, \<lparr>X = x, Y = y\<rparr>]
             (width * height) global of
        Inl e \<Rightarrow> Inl e | Inr (board1, endpoints, global') \<Rightarrow>
     (case pick board1 endpoints (\<lparr>X = 0, Y = 0\<rparr>, \<lparr>X = 0, Y = 0\<rparr>, - 1) of
        Inl e \<Rightarrow> Inl e | Inr (src, dest, dist) \<Rightarrow>
     (case store board1 (Y src * 2 + 1) (X src * 2 + 1) TILE_START of
        Inl e \<Rightarrow> Inl e | Inr board2 \<Rightarrow>
     (case store board2 (Y dest * 2 + 1) (X dest * 2 + 1) TILE_END of
        Inl e \<Rightarrow> Inl e | Inr board3 \<Rightarrow>
          Inr (\<lparr>Board = board3,
                Start = \<lparr>X = X src * 2 + 1, Y = Y src * 2 + 1\<rparr>,
                End = \<lparr>X = X dest * 2 + 1, Y = Y dest * 2 + 1\<rparr>,
                PathLen = dist,
                Width = width * 2 + 1,
                Height = height * 2 + 1\<rparr>, global'))))))))"

section \<open>Properties of the text format\<close>

lemma Split_nonempty: "Split s \<noteq> []"
  by (induction s) (auto split: list.splits)


lemma Split_pieces: "l \<in> set (Split s) \<Longrightarrow> set l \<subseteq> set s - {10}"
proof (induction s arbitrary: l)
  case Nil then show ?case by simp
next
  case (Cons c cs)
  show ?case
  proof (cases "c = 10")
    case True with Cons show ?thesis by auto
  next
    case False
    obtain h t where ht: "Split cs = h # t" using Split_nonempty[of cs] by (cases "Split cs") auto
    from Cons.prems False ht have "l = c # h \<or> l \<in> set t" by auto
    then show ?thesis
    proof
      assume "l = c # h"
      moreover have "set h \<subseteq> set cs - {10}" using Cons.IH[of h] ht by simp
      ultimately show ?thesis using False by auto
    next
      assume "l \<in> set t"
      then have "set l \<subseteq> set cs - {10}" using Cons.IH[of l] ht by simp
      then show ?thesis by auto
    qed
  qed
qed


lemma scan_row_plain:
  "set l \<subseteq> {TILE_EMPTY, TILE_WALL, 32} \<Longrightarrow> scan_row i j l st = Inr (map normal l, st)"
  by (induction l arbitrary: j)
     (auto simp: keep_def normal_def TILE_EMPTY_def TILE_WALL_def TILE_START_def TILE_END_def)

lemma scan_lines_plain:
  "\<forall>l \<in> set ls. set l \<subseteq> {TILE_EMPTY, TILE_WALL, 32} \<Longrightarrow>
   \<forall>l \<in> set ls. l \<noteq> [] \<longrightarrow> int (length l) = n \<Longrightarrow>
   width = - 1 \<or> width = n \<Longrightarrow>
   \<exists>board' width'. scan_lines i ls board width st = Inr (board', width', st)"
proof (induction ls arbitrary: i board width)
  case Nil then show ?case by simp
next
  case (Cons l ls)
  show ?case
  proof (cases "l = []")
    case True
    then show ?thesis using Cons by simp
  next
    case False
    then have len: "int (length l) = n" using Cons.prems by simp
    have row: "scan_row i 0 l st = Inr (map normal l, st)"
      using Cons.prems by (intro scan_row_plain) simp
    have "\<exists>board' width'. scan_lines (i + 1) ls (board @ [map normal l]) n st = Inr (board', width', st)"
      using Cons.prems by (intro Cons.IH) auto
    then show ?thesis using False len row Cons.prems(3) by auto
  qed
qed

text \<open>
  Claim C10. A text made only of \<^verbatim>\<open>'.'\<close>, \<^verbatim>\<open>'#'\<close>, blanks and newlines whose non-empty lines
  all have the same length (so: a rectangular grid with no \<^verbatim>\<open>'>'\<close> and no \<^verbatim>\<open>'<'\<close>) is
  loaded without error, and the maze has \<open>Start = (0, 0)\<close>, \<open>End = (0, 0)\<close> and
  \<open>PathLen = -1\<close>, whatever tile stands at position \<open>(0, 0)\<close>.
\<close>

theorem LoadMazeFromString_no_endpoints:
  assumes "set s \<subseteq> {TILE_EMPTY, TILE_WALL, 32, 10}"
    and "\<forall>l \<in> set (Split s). l \<noteq> [] \<longrightarrow> int (length l) = n"
  shows "\<exists>m. LoadMazeFromString s = Inr m \<and> Start m = \<lparr>X = 0, Y = 0\<rparr>
           \<and> End m = \<lparr>X = 0, Y = 0\<rparr> \<and> PathLen m = - 1"
proof -
  have tiles: "\<forall>l \<in> set (Split s). set l \<subseteq> {TILE_EMPTY, TILE_WALL, 32}"
    using Split_pieces[of _ s] assms(1) by blast
  obtain board' width' where
    "scan_lines 0 (Split s) [] (- 1)
       \<lparr>startX = 0, startY = 0, endX = 0, endY = 0, starts = 0, ends = 0\<rparr>
     = Inr (board', width', \<lparr>startX = 0, startY = 0, endX = 0, endY = 0, starts = 0, ends = 0\<rparr>)"
    using scan_lines_plain[OF tiles assms(2), of "- 1"] by blast
  then show ?thesis by (simp add: LoadMazeFromString_def)
qed

theorem LoadMazeFromString_no_endpoints_witness:
  "\<exists>m. LoadMazeFromString [35, 46, 10, 46, 32, 10] = Inr m \<and> Start m = \<lparr>X = 0, Y = 0\<rparr>
           \<and> End m = \<lparr>X = 0, Y = 0\<rparr> \<and> PathLen m = - 1"
proof -
  have h1: "set [35, 46, 10, 46, 32, 10] \<subseteq> {TILE_EMPTY, TILE_WALL, 32, 10}"
    by (simp add: TILE_EMPTY_def TILE_WALL_def)
  have h2: "\<forall>l \<in> set (Split [35, 46, 10, 46, 32, 10]). l \<noteq> [] \<longrightarrow> int (length l) = 2"
    by simp
  show ?thesis by (rule LoadMazeFromString_no_endpoints[OF h1 h2])
qed

end
